theory Spec2Isabelle
  imports Complex_Main "HOL-Library.Word"
begin

section \<open>Musical scales: intervals in cents, frequency ratios and note sequences\<close>

text \<open>
  The module \<^verbatim>\<open>scales/__init__.py\<close> holds one free function
  (\<^verbatim>\<open>scale_from_rates\<close>) and two classes (\<^verbatim>\<open>ToneBasis\<close>, \<^verbatim>\<open>Scale\<close>) built on numpy
  arrays. A float is read as a real: the results below are statements of exact real
  arithmetic, not of IEEE rounding. Python's \<^verbatim>\<open>2 ** x\<close> on a float exponent is
  \<open>2 powr x\<close> (where it does not overflow), \<^verbatim>\<open>np.log2\<close> is \<open>log 2\<close>.
\<close>

subsection \<open>Errors\<close>

text \<open>
  The exceptions the module can raise: \<^verbatim>\<open>ValueError\<close> from \<^verbatim>\<open>Scale.__init__\<close> (and from
  \<^verbatim>\<open>np.ones\<close> on a negative length), \<^verbatim>\<open>IndexError\<close> from numpy indexing,
  \<^verbatim>\<open>ZeroDivisionError\<close> from \<^verbatim>\<open>1200/n\<close>, \<^verbatim>\<open>OverflowError\<close> from \<^verbatim>\<open>2 ** x\<close> on Python
  numbers.
\<close>

datatype error = ValueError | IndexError | ZeroDivisionError | OverflowError

subsection \<open>Numbers and arrays\<close>

text \<open>
  A Python number handed to the module is an int or a float, and numpy keeps the
  difference: a list of Python ints only becomes an array of dtype \<^verbatim>\<open>int64\<close>, whose
  arithmetic wraps modulo \<open>2 ^ 64\<close>, and anything with a float in it becomes an array
  of dtype \<^verbatim>\<open>float64\<close>. An int is modelled inside the \<^verbatim>\<open>int64\<close> range, as a 64-bit
  word read in two's complement; Python ints beyond that range are not modelled.
\<close>

datatype number = PyInt "64 word" | PyFloat real

datatype ndarray = Int64 "64 word list" | Float64 "real list"

fun num_val :: "number \<Rightarrow> real" where
  "num_val (PyInt w) = real_of_int (sint w)"
| "num_val (PyFloat x) = x"

text \<open>The elements of an array as reals (what \<^verbatim>\<open>astype(float)\<close> gives), and its length.\<close>

fun vals :: "ndarray \<Rightarrow> real list" where
  "vals (Int64 ws) = map (\<lambda>w. real_of_int (sint w)) ws"
| "vals (Float64 xs) = xs"

definition alen :: "ndarray \<Rightarrow> nat" where
  "alen a = length (vals a)"

text \<open>
  \<^verbatim>\<open>np.array\<close> on a Python list of numbers: \<^verbatim>\<open>int64\<close> when the list is not empty and
  holds ints only, \<^verbatim>\<open>float64\<close> otherwise. Every array-like argument below is given as
  the array numpy makes of it.
\<close>

fun the_ints :: "number list \<Rightarrow> 64 word list option" where
  "the_ints [] = Some []"
| "the_ints (PyInt w # ns) = map_option (\<lambda>ws. w # ws) (the_ints ns)"
| "the_ints (PyFloat x # ns) = None"

definition asarray :: "number list \<Rightarrow> ndarray" where
  "asarray ns =
     (case the_ints ns of
        Some ws \<Rightarrow> (if ns = [] then Float64 [] else Int64 ws)
      | None \<Rightarrow> Float64 (map num_val ns))"

subsection \<open>The cumulative frequency builder\<close>

text \<open>
  \<^verbatim>\<open>np.concatenate([[origin], rates])\<close>: the one-element list becomes an array of the
  dtype of \<^verbatim>\<open>origin\<close>, and the result is \<^verbatim>\<open>int64\<close> only when both parts are.
\<close>

fun concatenate :: "number \<Rightarrow> ndarray \<Rightarrow> ndarray" where
  "concatenate (PyInt w) (Int64 ws) = Int64 ([w] @ ws)"
| "concatenate origin rates = Float64 ([num_val origin] @ vals rates)"

text \<open>
  \<^verbatim>\<open>np.cumprod\<close>: element 0 of the result is element 0 of the argument, every later
  element is the previous result times the next argument element, in the arithmetic of
  the dtype: on \<^verbatim>\<open>int64\<close> the product wraps silently, as the product of words does.
\<close>

fun cumprod_from :: "'a::monoid_mult \<Rightarrow> 'a list \<Rightarrow> 'a list" where
  "cumprod_from acc [] = []"
| "cumprod_from acc (x # xs) = (acc * x) # cumprod_from (acc * x) xs"

definition cumprod_list :: "'a::monoid_mult list \<Rightarrow> 'a list" where
  "cumprod_list xs = (case xs of [] \<Rightarrow> [] | x # ys \<Rightarrow> x # cumprod_from x ys)"

fun cumprod :: "ndarray \<Rightarrow> ndarray" where
  "cumprod (Int64 ws) = Int64 (cumprod_list ws)"
| "cumprod (Float64 xs) = Float64 (cumprod_list xs)"

subsection \<open>ToneBasis\<close>

text \<open>
  The intervals of a ToneBasis are only ever divided by 1200, which numpy does in
  \<^verbatim>\<open>float64\<close> whatever their dtype: they are kept as their values.
\<close>

record ToneBasis =
  intervals :: "real list"

text \<open>\<^verbatim>\<open>self.intervals = np.array(intervals)\<close>\<close>

definition ToneBasis_init :: "real list \<Rightarrow> ToneBasis" where
  "ToneBasis_init ivs = \<lparr>intervals = ivs\<rparr>"

text \<open>
  \<^verbatim>\<open>intervals = 1200/n * np.ones(n); return cls(intervals)\<close> for a Python integer
  \<^verbatim>\<open>n\<close>. The division is evaluated first and raises on \<^verbatim>\<open>n = 0\<close>; \<^verbatim>\<open>np.ones\<close> refuses a
  negative length.
\<close>

definition equidistant :: "int \<Rightarrow> error + ToneBasis" where
  "equidistant n =
     (if n = 0 then Inl ZeroDivisionError
      else if n < 0 then Inl ValueError
      else Inr (ToneBasis_init (map (\<lambda>one. 1200 / real_of_int n * one) (replicate (nat n) 1))))"

text \<open>
  \<^verbatim>\<open>return 2 ** (self.intervals/1200)\<close>, element-wise and in \<^verbatim>\<open>float64\<close>: on an array
  numpy raises nothing.
\<close>

definition ToneBasis_rates :: "ToneBasis \<Rightarrow> real list" where
  "ToneBasis_rates B = map (\<lambda>c. 2 powr (c / 1200)) (intervals B)"

subsection \<open>The store: arrays and Scale objects\<close>

text \<open>
  A \<^verbatim>\<open>Scale\<close> object has one attribute, \<^verbatim>\<open>notes\<close>, a reference to a numpy array that
  \<^verbatim>\<open>set_note\<close> mutates in place. Whether two Scale objects share an array is therefore
  observable, and the store keeps the two levels apart: \<open>arrays\<close> holds every array
  allocated so far (an address is a position in the list), \<open>scales\<close> holds, for every
  Scale object, the address of its \<^verbatim>\<open>notes\<close> array.
\<close>

record heap =
  arrays :: "ndarray list"
  scales :: "nat list"

definition empty_heap :: heap where
  "empty_heap = \<lparr>arrays = [], scales = []\<rparr>"

text \<open>
  \<^verbatim>\<open>np.array(xs)\<close> and \<^verbatim>\<open>np.cumprod(...)\<close> return a newly allocated array: whatever the
  argument is (a Python list or another array), only its elements are read.
\<close>

definition new_array :: "heap \<Rightarrow> ndarray \<Rightarrow> nat \<times> heap" where
  "new_array h xs = (length (arrays h), h\<lparr>arrays := arrays h @ [xs]\<rparr>)"

definition new_scale :: "heap \<Rightarrow> nat \<Rightarrow> nat \<times> heap" where
  "new_scale h a = (length (scales h), h\<lparr>scales := scales h @ [a]\<rparr>)"

text \<open>
  \<^verbatim>\<open>return np.cumprod(np.concatenate([[origin], rates]))\<close>: the result is a new array,
  returned by reference.
\<close>

definition scale_from_rates :: "heap \<Rightarrow> number \<Rightarrow> ndarray \<Rightarrow> nat \<times> heap" where
  "scale_from_rates h origin rates = new_array h (cumprod (concatenate origin rates))"

text \<open>\<^verbatim>\<open>return scale_from_rates(origin, self.rates())\<close>\<close>

definition ToneBasis_scale :: "heap \<Rightarrow> ToneBasis \<Rightarrow> number \<Rightarrow> nat \<times> heap" where
  "ToneBasis_scale h B origin = scale_from_rates h origin (Float64 (ToneBasis_rates B))"

text \<open>The address held by \<^verbatim>\<open>self.notes\<close>, and the array stored there.\<close>

definition notes_ref :: "heap \<Rightarrow> nat \<Rightarrow> nat" where
  "notes_ref h self = scales h ! self"

definition notes_of :: "heap \<Rightarrow> nat \<Rightarrow> ndarray" where
  "notes_of h self = arrays h ! notes_ref h self"

text \<open>
  A reference to a Scale object is live when the object and its array have been
  allocated. Python has no dangling references: every reference a program holds is live.
\<close>

definition live :: "heap \<Rightarrow> nat \<Rightarrow> bool" where
  "live h self \<longleftrightarrow> self < length (scales h) \<and> notes_ref h self < length (arrays h)"

subsection \<open>numpy indexing with an integer\<close>

text \<open>
  An index \<open>i\<close> into an array of length \<open>n\<close> is in range when \<open>-n \<le> i < n\<close>; a
  negative index counts from the end. Anything else raises \<^verbatim>\<open>IndexError\<close>.
\<close>

definition norm_index :: "nat \<Rightarrow> int \<Rightarrow> error + nat" where
  "norm_index n i =
     (if 0 \<le> i \<and> i < int n then Inr (nat i)
      else if - int n \<le> i \<and> i < 0 then Inr (nat (i + int n))
      else Inl IndexError)"

text \<open>
  Reading an element gives a numpy scalar; the only use made of it is a product with a
  Python float, which is a float whatever the dtype, so the read returns the value.
\<close>

definition getitem :: "heap \<Rightarrow> nat \<Rightarrow> int \<Rightarrow> error + real" where
  "getitem h a i =
     (case norm_index (alen (arrays h ! a)) i of
        Inl e \<Rightarrow> Inl e
      | Inr k \<Rightarrow> Inr (vals (arrays h ! a) ! k))"

text \<open>
  Storing a float into an \<^verbatim>\<open>int64\<close> array converts it as C does: the fraction is
  dropped (rounding towards zero), silently. A value outside the \<^verbatim>\<open>int64\<close> range has no
  defined conversion in C; x86-64 yields the most negative integer.
\<close>

definition trunc :: "real \<Rightarrow> int" where
  "trunc v = (if 0 \<le> v then \<lfloor>v\<rfloor> else \<lceil>v\<rceil>)"

definition in_int64 :: "int \<Rightarrow> bool" where
  "in_int64 p \<longleftrightarrow> - (2 ^ 63) \<le> p \<and> p < 2 ^ 63"

definition to_int64 :: "real \<Rightarrow> 64 word" where
  "to_int64 v = (if in_int64 (trunc v) then word_of_int (trunc v) else word_of_int (- (2 ^ 63)))"

fun store :: "ndarray \<Rightarrow> nat \<Rightarrow> real \<Rightarrow> ndarray" where
  "store (Int64 ws) k v = Int64 (ws[k := to_int64 v])"
| "store (Float64 xs) k v = Float64 (xs[k := v])"

definition setitem :: "heap \<Rightarrow> nat \<Rightarrow> int \<Rightarrow> real \<Rightarrow> error + heap" where
  "setitem h a i v =
     (case norm_index (alen (arrays h ! a)) i of
        Inl e \<Rightarrow> Inl e
      | Inr k \<Rightarrow> Inr (h\<lparr>arrays := (arrays h)[a := store (arrays h ! a) k v]\<rparr>))"

subsection \<open>Scale\<close>

text \<open>
  \<^verbatim>\<open>Scale(origin=None, rates=None, notes=None)\<close>: an absent argument is \<open>None\<close>. The
  result is the error raised, or the reference to the new object; the store comes back
  unchanged when the constructor raises.
\<close>

definition Scale_init ::
  "heap \<Rightarrow> number option \<Rightarrow> ndarray option \<Rightarrow> ndarray option \<Rightarrow> (error + nat) \<times> heap" where
  "Scale_init h origin rates notes =
     (case notes of
        None \<Rightarrow>
          (if origin = None \<or> rates = None then (Inl ValueError, h)
           else
             (let (a, h1) = scale_from_rates h (the origin) (the rates);
                  (s, h2) = new_scale h1 a
              in (Inr s, h2)))
      | Some ns \<Rightarrow>
          (if origin \<noteq> None \<or> rates \<noteq> None then (Inl ValueError, h)
           else
             (let (a, h1) = new_array h ns;
                  (s, h2) = new_scale h1 a
              in (Inr s, h2))))"

text \<open>\<^verbatim>\<open>return Scale(origin, self.rates())\<close>\<close>

definition to_scale :: "heap \<Rightarrow> ToneBasis \<Rightarrow> number option \<Rightarrow> (error + nat) \<times> heap" where
  "to_scale h B origin = Scale_init h origin (Some (Float64 (ToneBasis_rates B))) None"

text \<open>\<^verbatim>\<open>return Scale(notes=self.notes)\<close>\<close>

definition Scale_copy :: "heap \<Rightarrow> nat \<Rightarrow> (error + nat) \<times> heap" where
  "Scale_copy h self = Scale_init h None None (Some (notes_of h self))"

text \<open>
  \<^verbatim>\<open>return self.notes[1:] / self.notes[:-1]\<close>: both slices have one element less than
  \<^verbatim>\<open>notes\<close> (none when \<^verbatim>\<open>notes\<close> is empty) and the quotient is element-wise, in
  \<^verbatim>\<open>float64\<close> whatever the dtype of the notes. Where a note is 0 numpy yields \<^verbatim>\<open>inf\<close> or
  \<^verbatim>\<open>nan\<close> and HOL yields 0, so the results on \<open>Scale_rates\<close> below are stated for
  positive notes only.
\<close>

definition Scale_rates :: "heap \<Rightarrow> nat \<Rightarrow> real list" where
  "Scale_rates h self =
     map2 (\<lambda>x y. x / y) (tl (vals (notes_of h self))) (butlast (vals (notes_of h self)))"

text \<open>\<^verbatim>\<open>return 1200 * np.log2(self.rates())\<close>\<close>

definition Scale_intervals :: "heap \<Rightarrow> nat \<Rightarrow> real list" where
  "Scale_intervals h self = map (\<lambda>r. 1200 * log 2 r) (Scale_rates h self)"

text \<open>
  \<^verbatim>\<open>2 ** x\<close> on Python numbers, \<open>x\<close> a float: the result is a float, and Python raises
  \<^verbatim>\<open>OverflowError\<close> when it would not fit one, that is from \<open>2 ^ 1024\<close> on.
\<close>

definition py_pow2 :: "real \<Rightarrow> error + real" where
  "py_pow2 x = (if 1024 \<le> x then Inl OverflowError else Inr (2 powr x))"

text \<open>
  \<^verbatim>\<open>set_note(self, index, cents, reference='current')\<close>. The first statement,
  \<^verbatim>\<open>rate = 2 ** (cents/1200)\<close>, runs whatever the reference is. The right-hand side of
  each assignment is evaluated before the store into \<^verbatim>\<open>self.notes[index]\<close>, and the
  store is the last effect of its branch, so an exception leaves the array as it was. A
  reference string that matches none of the three branches falls through to
  \<^verbatim>\<open>return self\<close>.
\<close>

definition set_note :: "heap \<Rightarrow> nat \<Rightarrow> int \<Rightarrow> real \<Rightarrow> string \<Rightarrow> (error + nat) \<times> heap" where
  "set_note h self index cents reference =
     (case py_pow2 (cents / 1200) of
        Inl e \<Rightarrow> (Inl e, h)
      | Inr rate \<Rightarrow>
          if reference = ''current'' then
            (case getitem h (notes_ref h self) index of
               Inl e \<Rightarrow> (Inl e, h)
             | Inr v \<Rightarrow>
                 (case setitem h (notes_ref h self) index (v * rate) of
                    Inl e \<Rightarrow> (Inl e, h)
                  | Inr h' \<Rightarrow> (Inr self, h')))
          else if reference = ''previous'' then
            (case getitem h (notes_ref h self) (index - 1) of
               Inl e \<Rightarrow> (Inl e, h)
             | Inr v \<Rightarrow>
                 (case setitem h (notes_ref h self) index (v * rate) of
                    Inl e \<Rightarrow> (Inl e, h)
                  | Inr h' \<Rightarrow> (Inr self, h')))
          else if reference = ''origin'' then
            (case getitem h (notes_ref h self) 0 of
               Inl e \<Rightarrow> (Inl e, h)
             | Inr v \<Rightarrow>
                 (case setitem h (notes_ref h self) index (v * rate) of
                    Inl e \<Rightarrow> (Inl e, h)
                  | Inr h' \<Rightarrow> (Inr self, h')))
          else (Inr self, h))"

text \<open>
  The store after the single assignment \<^verbatim>\<open>self.notes[k] = v\<close>: element \<open>k\<close> of the
  array that \<^verbatim>\<open>self.notes\<close> refers to is replaced, nothing else is touched. It is the
  yardstick the results on \<open>set_note\<close> are measured against.
\<close>

definition with_note :: "heap \<Rightarrow> nat \<Rightarrow> nat \<Rightarrow> real \<Rightarrow> heap" where
  "with_note h self k v =
     h\<lparr>arrays := (arrays h)[notes_ref h self := store (notes_of h self) k v]\<rparr>"


section \<open>Properties of the cumulative builder\<close>

lemma length_cumprod_from: "length (cumprod_from acc xs) = length xs"
  by (induction xs arbitrary: acc) simp_all

lemma nth_cumprod_from:
  "i < length xs \<Longrightarrow> cumprod_from acc xs ! i = acc * prod_list (take (Suc i) xs)"
proof (induction xs arbitrary: acc i)
  case Nil
  then show ?case by simp
next
  case (Cons x xs)
  show ?case
  proof (cases i)
    case 0
    then show ?thesis by simp
  next
    case (Suc j)
    with Cons.prems have "j < length xs" by simp
    from Cons.IH [OF this, of "acc * x"] Suc show ?thesis
      by (simp add: mult.assoc)
  qed
qed

lemma length_cumprod_list: "length (cumprod_list xs) = length xs"
  by (cases xs) (simp_all add: cumprod_list_def length_cumprod_from)

lemma nth_cumprod_list:
  "i \<le> length xs \<Longrightarrow> cumprod_list (x # xs) ! i = x * prod_list (take i xs)"
proof (cases i)
  case 0
  then show ?thesis by (simp add: cumprod_list_def)
next
  case (Suc j)
  assume "i \<le> length xs"
  with Suc have "j < length xs" by simp
  with Suc show ?thesis
    by (simp add: cumprod_list_def nth_cumprod_from)
qed

lemma word_prod_list_sint:
  "prod_list ws = (word_of_int (prod_list (map sint ws)) :: 64 word)"
  by (induction ws) simp_all

lemma sint_word_of_int_in_range:
  "- (2 ^ 63) \<le> p \<Longrightarrow> p < 2 ^ 63 \<Longrightarrow> sint (word_of_int p :: 64 word) = p"
  by (simp add: signed_of_int signed_take_bit_int_eq_self)

lemma sint_word_product:
  fixes w :: "64 word"
  assumes "- (2 ^ 63) \<le> sint w * prod_list (map sint ws)"
    and "sint w * prod_list (map sint ws) < 2 ^ 63"
  shows "sint (w * prod_list ws) = sint w * prod_list (map sint ws)"
proof -
  have "w * prod_list ws = word_of_int (sint w * prod_list (map sint ws))"
    by (simp add: word_prod_list_sint [of ws])
  then show ?thesis
    by (simp only: sint_word_of_int_in_range [OF assms])
qed

lemma real_prod_list_sint:
  "real_of_int (prod_list (map sint ws)) = prod_list (map (\<lambda>w. real_of_int (sint w)) (ws :: 64 word list))"
  by (induction ws) simp_all

lemma scale_from_rates_alloc:
  "scale_from_rates h origin rates
     = (length (arrays h), h\<lparr>arrays := arrays h @ [cumprod (concatenate origin rates)]\<rparr>)"
  by (simp add: scale_from_rates_def new_array_def)

lemma builder_float:
  assumes "(\<exists>x. origin = PyFloat x) \<or> (\<exists>xs. rates = Float64 xs)"
  shows "cumprod (concatenate origin rates)
           = Float64 (cumprod_list (num_val origin # vals rates))"
  using assms by (cases origin; cases rates) auto

lemma builder_int:
  "cumprod (concatenate (PyInt w) (Int64 ws)) = Int64 (cumprod_list (w # ws))"
  by simp

lemma alen_builder: "alen (cumprod (concatenate origin rates)) = alen rates + 1"
  by (cases origin; cases rates) (simp_all add: alen_def length_cumprod_list)

lemma first_builder: "vals (cumprod (concatenate origin rates)) ! 0 = num_val origin"
  by (cases origin; cases rates) (simp_all add: cumprod_list_def)

lemma builder_float_nth:
  assumes "(\<exists>x. origin = PyFloat x) \<or> (\<exists>xs. rates = Float64 xs)" and "i \<le> alen rates"
  shows "vals (cumprod (concatenate origin rates)) ! i
           = num_val origin * prod_list (take i (vals rates))"
  using assms(2) by (simp add: builder_float [OF assms(1)] nth_cumprod_list alen_def)

lemma builder_int_nth:
  assumes "i \<le> length ws"
  shows "cumprod_list (w # ws) ! i
           = (word_of_int (sint w * prod_list (map sint (take i ws))) :: 64 word)"
proof -
  have "cumprod_list (w # ws) ! i = w * prod_list (take i ws)"
    using assms by (rule nth_cumprod_list)
  also have "\<dots> = word_of_int (sint w * prod_list (map sint (take i ws)))"
    by (simp add: word_prod_list_sint [of "take i ws"])
  finally show ?thesis .
qed

lemma builder_int_exact:
  assumes "i \<le> length ws" and "in_int64 (sint w * prod_list (map sint (take i ws)))"
  shows "vals (Int64 (cumprod_list (w # ws))) ! i
           = num_val (PyInt w) * prod_list (take i (vals (Int64 ws)))"
proof -
  let ?p = "sint w * prod_list (map sint (take i ws))"
  from assms(2) have lo: "- (2 ^ 63) \<le> ?p" and hi: "?p < 2 ^ 63"
    by (simp_all add: in_int64_def)
  have "sint (cumprod_list (w # ws) ! i) = ?p"
    by (simp only: builder_int_nth [OF assms(1)] sint_word_of_int_in_range [OF lo hi])
  moreover from assms(1) have "i < length (cumprod_list (w # ws))"
    by (simp add: length_cumprod_list)
  ultimately have "vals (Int64 (cumprod_list (w # ws))) ! i = real_of_int ?p"
    by (simp del: of_int_sint of_int_mult)
  also have "\<dots> = num_val (PyInt w) * prod_list (take i (vals (Int64 ws)))"
    by (simp add: real_prod_list_sint take_map del: of_int_sint)
  finally show ?thesis .
qed

text \<open>
  C3, as the claim has it: for every origin \<open>f\<close> and ratios \<open>r1, ..., rn\<close> the result
  holds \<open>f * r1 * ... * ri\<close> at position \<open>i\<close>. With an int origin and int ratios numpy
  multiplies in \<^verbatim>\<open>int64\<close>: \<^verbatim>\<open>scale_from_rates(2**62, [4])\<close> is \<open>[2 ^ 62, 0]\<close>, and the
  product \<open>2 ^ 62 * 4 = 2 ^ 64\<close> is not 0.
\<close>

theorem scale_from_rates_cumulative_counterexample:
  "scale_from_rates empty_heap (PyInt 4611686018427387904) (Int64 [4])
     = (0, \<lparr>arrays = [Int64 [4611686018427387904, 0]], scales = []\<rparr>)
   \<and> vals (Int64 [4611686018427387904, 0]) ! 1 = 0
   \<and> num_val (PyInt 4611686018427387904) * num_val (PyInt 4) = 18446744073709551616
   \<and> vals (Int64 [4611686018427387904, 0]) ! 1
       \<noteq> num_val (PyInt 4611686018427387904) * num_val (PyInt 4)"
  by (simp add: scale_from_rates_def new_array_def empty_heap_def cumprod_list_def)

text \<open>
  C3, as the code has it. \<^verbatim>\<open>scale_from_rates(f, [r1, ..., rn])\<close> returns a new array
  \<open>r\<close> of \<open>n + 1\<close> elements whose element 0 is \<open>f\<close>. The array is the same whatever
  the store is (the result depends on the two arguments alone), and the store afterwards
  is the store before with \<open>r\<close> added: no existing array or object is changed. When
  the origin or the ratios are floats, element \<open>i\<close> is \<open>f * r1 * ... * ri\<close> in exact
  real arithmetic, in the order given. When the origin and all ratios are ints, the
  products are taken in \<^verbatim>\<open>int64\<close>: element \<open>i\<close> is \<open>f * r1 * ... * ri\<close> reduced modulo
  \<open>2 ^ 64\<close>, which is the product itself whenever that lies within the \<^verbatim>\<open>int64\<close> range.
\<close>

theorem scale_from_rates_cumulative:
  "\<exists>r. (\<forall>h. scale_from_rates h origin rates
              = (length (arrays h), h\<lparr>arrays := arrays h @ [r]\<rparr>))
     \<and> alen r = alen rates + 1
     \<and> vals r ! 0 = num_val origin
     \<and> ((\<exists>x. origin = PyFloat x) \<or> (\<exists>xs. rates = Float64 xs) \<longrightarrow>
          (\<forall>i \<le> alen rates. vals r ! i = num_val origin * prod_list (take i (vals rates))))
     \<and> (\<forall>w ws. origin = PyInt w \<and> rates = Int64 ws \<longrightarrow>
          (\<exists>zs. r = Int64 zs
             \<and> (\<forall>i \<le> length ws.
                   zs ! i = word_of_int (sint w * prod_list (map sint (take i ws)))
                 \<and> (in_int64 (sint w * prod_list (map sint (take i ws))) \<longrightarrow>
                      vals r ! i = num_val origin * prod_list (take i (vals rates))))))"
proof -
  let ?r = "cumprod (concatenate origin rates)"
  have a: "\<forall>h. scale_from_rates h origin rates
              = (length (arrays h), h\<lparr>arrays := arrays h @ [?r]\<rparr>)"
    by (simp add: scale_from_rates_alloc)
  have b: "alen ?r = alen rates + 1"
    by (rule alen_builder)
  have c: "vals ?r ! 0 = num_val origin"
    by (rule first_builder)
  have d: "(\<exists>x. origin = PyFloat x) \<or> (\<exists>xs. rates = Float64 xs) \<longrightarrow>
          (\<forall>i \<le> alen rates. vals ?r ! i = num_val origin * prod_list (take i (vals rates)))"
    using builder_float_nth by blast
  have e: "\<forall>w ws. origin = PyInt w \<and> rates = Int64 ws \<longrightarrow>
          (\<exists>zs. ?r = Int64 zs
             \<and> (\<forall>i \<le> length ws.
                   zs ! i = word_of_int (sint w * prod_list (map sint (take i ws)))
                 \<and> (in_int64 (sint w * prod_list (map sint (take i ws))) \<longrightarrow>
                      vals ?r ! i = num_val origin * prod_list (take i (vals rates)))))"
  proof (intro allI impI)
    fix w ws
    assume ow: "origin = PyInt w \<and> rates = Int64 ws"
    then have r: "?r = Int64 (cumprod_list (w # ws))"
      by (simp only: builder_int)
    have "\<forall>i \<le> length ws.
            cumprod_list (w # ws) ! i = word_of_int (sint w * prod_list (map sint (take i ws)))
          \<and> (in_int64 (sint w * prod_list (map sint (take i ws))) \<longrightarrow>
               vals (Int64 (cumprod_list (w # ws))) ! i
                 = num_val (PyInt w) * prod_list (take i (vals (Int64 ws))))"
      using builder_int_nth builder_int_exact by blast
    with ow r show "\<exists>zs. ?r = Int64 zs
             \<and> (\<forall>i \<le> length ws.
                   zs ! i = word_of_int (sint w * prod_list (map sint (take i ws)))
                 \<and> (in_int64 (sint w * prod_list (map sint (take i ws))) \<longrightarrow>
                      vals ?r ! i = num_val origin * prod_list (take i (vals rates))))"
      by (simp only:) blast
  qed
  from a b c d e show ?thesis by blast
qed

theorem scale_from_rates_cumulative_witness:
  "(\<exists>r. scale_from_rates empty_heap (PyFloat 100) (Float64 [2, 3])
            = (0, \<lparr>arrays = [r], scales = []\<rparr>)
        \<and> r = Float64 [100, 200, 600]
        \<and> vals r ! 2 = num_val (PyFloat 100) * prod_list (take 2 (vals (Float64 [2, 3]))))
   \<and> (\<exists>r. scale_from_rates empty_heap (PyInt 100) (Int64 [2, 3])
            = (0, \<lparr>arrays = [r], scales = []\<rparr>)
        \<and> r = Int64 [100, 200, 600]
        \<and> vals r ! 2 = num_val (PyInt 100) * prod_list (take 2 (vals (Int64 [2, 3]))))"
proof -
  from scale_from_rates_cumulative [of "PyFloat 100" "Float64 [2, 3]"]
  obtain r where
    run: "\<forall>h. scale_from_rates h (PyFloat 100) (Float64 [2, 3])
              = (length (arrays h), h\<lparr>arrays := arrays h @ [r]\<rparr>)"
    and el: "(\<exists>x. PyFloat 100 = PyFloat x) \<or> (\<exists>xs. Float64 [2, 3] = Float64 xs) \<longrightarrow>
             (\<forall>i \<le> alen (Float64 [2, 3]).
               vals r ! i = num_val (PyFloat 100) * prod_list (take i (vals (Float64 [2, 3]))))"
    by (elim exE conjE) (rule that; assumption)
  have "(2::nat) \<le> alen (Float64 [2, 3])"
    by (simp add: alen_def)
  with el have e2: "vals r ! 2 = num_val (PyFloat 100) * prod_list (take 2 (vals (Float64 [2, 3])))"
    by blast
  have "scale_from_rates empty_heap (PyFloat 100) (Float64 [2, 3])
          = (0, \<lparr>arrays = [Float64 [100, 200, 600]], scales = []\<rparr>)"
    by (simp add: scale_from_rates_def new_array_def empty_heap_def cumprod_list_def)
  with run have r: "r = Float64 [100, 200, 600]"
    by (simp add: empty_heap_def)
  from run r e2 have float_case:
    "\<exists>r. scale_from_rates empty_heap (PyFloat 100) (Float64 [2, 3])
            = (0, \<lparr>arrays = [r], scales = []\<rparr>)
        \<and> r = Float64 [100, 200, 600]
        \<and> vals r ! 2 = num_val (PyFloat 100) * prod_list (take 2 (vals (Float64 [2, 3])))"
    by (simp add: empty_heap_def)
  from scale_from_rates_cumulative [of "PyInt 100" "Int64 [2, 3]"]
  obtain q where
    runq: "\<forall>h. scale_from_rates h (PyInt 100) (Int64 [2, 3])
              = (length (arrays h), h\<lparr>arrays := arrays h @ [q]\<rparr>)"
    and elq: "\<forall>w ws. PyInt 100 = PyInt w \<and> Int64 [2, 3] = Int64 ws \<longrightarrow>
          (\<exists>zs. q = Int64 zs
             \<and> (\<forall>i \<le> length ws.
                   zs ! i = word_of_int (sint w * prod_list (map sint (take i ws)))
                 \<and> (in_int64 (sint w * prod_list (map sint (take i ws))) \<longrightarrow>
                      vals q ! i = num_val (PyInt 100) * prod_list (take i (vals (Int64 [2, 3]))))))"
    by (elim exE conjE) (rule that; assumption)
  have two: "(2::nat) \<le> length [2, 3 :: 64 word]" by simp
  have rng: "in_int64 (sint (100 :: 64 word) * prod_list (map sint (take 2 [2, 3 :: 64 word])))"
    by (simp add: in_int64_def)
  from elq have "\<exists>zs. q = Int64 zs
             \<and> (\<forall>i \<le> length [2, 3 :: 64 word].
                   zs ! i = word_of_int (sint (100 :: 64 word) * prod_list (map sint (take i [2, 3 :: 64 word])))
                 \<and> (in_int64 (sint (100 :: 64 word) * prod_list (map sint (take i [2, 3 :: 64 word]))) \<longrightarrow>
                      vals q ! i = num_val (PyInt 100) * prod_list (take i (vals (Int64 [2, 3])))))"
    by blast
  with two rng have q2: "vals q ! 2 = num_val (PyInt 100) * prod_list (take 2 (vals (Int64 [2, 3])))"
    by blast
  have "scale_from_rates empty_heap (PyInt 100) (Int64 [2, 3])
          = (0, \<lparr>arrays = [Int64 [100, 200, 600]], scales = []\<rparr>)"
    by (simp add: scale_from_rates_def new_array_def empty_heap_def cumprod_list_def)
  with runq have "q = Int64 [100, 200, 600]"
    by (simp add: empty_heap_def)
  with runq q2 have int_case:
    "\<exists>r. scale_from_rates empty_heap (PyInt 100) (Int64 [2, 3])
            = (0, \<lparr>arrays = [r], scales = []\<rparr>)
        \<and> r = Int64 [100, 200, 600]
        \<and> vals r ! 2 = num_val (PyInt 100) * prod_list (take 2 (vals (Int64 [2, 3])))"
    by (simp add: empty_heap_def)
  from float_case int_case show ?thesis by (rule conjI)
qed

section \<open>Properties of ToneBasis\<close>

text \<open>
  C6. For a ToneBasis with cents \<open>c1, ..., cn\<close>, \<^verbatim>\<open>rates()\<close> has the same length and
  order, its \<open>i\<close>-th element is \<open>2 powr (ci / 1200)\<close>, and 1200 cents give the ratio 2.
\<close>

theorem ToneBasis_rates_pointwise:
  "length (ToneBasis_rates B) = length (intervals B)
   \<and> (\<forall>i < length (intervals B). ToneBasis_rates B ! i = 2 powr (intervals B ! i / 1200))
   \<and> ToneBasis_rates (ToneBasis_init [1200]) = [2]"
  by (simp add: ToneBasis_rates_def ToneBasis_init_def)

theorem ToneBasis_rates_pointwise_witness:
  "length (ToneBasis_rates (ToneBasis_init [700, 1200])) = 2
   \<and> ToneBasis_rates (ToneBasis_init [700, 1200]) ! 1 = 2"
proof -
  have "(1::nat) < length (intervals (ToneBasis_init [700, 1200]))"
    by (simp add: ToneBasis_init_def)
  with ToneBasis_rates_pointwise [of "ToneBasis_init [700, 1200]"]
  have "ToneBasis_rates (ToneBasis_init [700, 1200]) ! 1
          = 2 powr (intervals (ToneBasis_init [700, 1200]) ! 1 / 1200)"
    by blast
  moreover have "length (ToneBasis_rates (ToneBasis_init [700, 1200])) = 2"
    using ToneBasis_rates_pointwise [of "ToneBasis_init [700, 1200]"]
    by (simp add: ToneBasis_init_def)
  ultimately show ?thesis by (simp add: ToneBasis_init_def)
qed

lemma octave_root_power:
  assumes "1 \<le> n"
  shows "(2 powr (1 / real_of_int n)) ^ nat n = (2::real)"
proof -
  have "(2 powr (1 / real_of_int n)) ^ nat n = (2 powr (1 / real_of_int n)) powr real (nat n)"
    by (simp add: powr_realpow)
  also have "\<dots> = 2 powr (1 / real_of_int n * real (nat n))"
    by (simp add: powr_powr)
  also from assms have "1 / real_of_int n * real (nat n) = 1"
    by simp
  finally show ?thesis by simp
qed

text \<open>
  C7. For \<open>n \<ge> 1\<close>, \<^verbatim>\<open>ToneBasis.equidistant(n)\<close> returns \<open>n\<close> intervals of \<open>1200 / n\<close>
  cents each; its \<^verbatim>\<open>rates()\<close> are \<open>n\<close> copies of \<open>2 powr (1 / n)\<close>, and their product
  is 2: \<open>n\<close> equal steps make one octave.
\<close>

theorem equidistant_octave:
  "1 \<le> n \<Longrightarrow>
     \<exists>B. equidistant n = Inr B
       \<and> intervals B = replicate (nat n) (1200 / real_of_int n)
       \<and> ToneBasis_rates B = replicate (nat n) (2 powr (1 / real_of_int n))
       \<and> prod_list (ToneBasis_rates B) = 2"
proof -
  assume n: "1 \<le> n"
  let ?B = "ToneBasis_init (replicate (nat n) (1200 / real_of_int n))"
  from n have eq: "equidistant n = Inr ?B"
    by (simp add: equidistant_def)
  from n have r: "ToneBasis_rates ?B = replicate (nat n) (2 powr (1 / real_of_int n))"
    by (simp add: ToneBasis_rates_def ToneBasis_init_def)
  have "prod_list (ToneBasis_rates ?B) = (2 powr (1 / real_of_int n)) ^ nat n"
    by (simp add: r prod_list_replicate)
  with n have "prod_list (ToneBasis_rates ?B) = 2"
    by (simp add: octave_root_power)
  with eq r show ?thesis
    by (simp add: ToneBasis_init_def)
qed

theorem equidistant_octave_witness:
  "\<exists>B. equidistant 2 = Inr B
       \<and> intervals B = [600, 600]
       \<and> ToneBasis_rates B = [2 powr (1 / 2), 2 powr (1 / 2)]
       \<and> prod_list (ToneBasis_rates B) = 2"
proof -
  have "(1::int) \<le> 2" by simp
  from equidistant_octave [OF this] show ?thesis
    by (simp add: numeral_2_eq_2)
qed

section \<open>Constructing a Scale\<close>

lemma Scale_init_notes_arg:
  "Scale_init h None None (Some ns) = (Inr (length (scales h)), h\<lparr>arrays := arrays h @ [ns], scales := scales h @ [length (arrays h)]\<rparr>)"
  by (simp add: Scale_init_def new_array_def new_scale_def)

lemma Scale_init_rates_arg:
  "Scale_init h (Some f) (Some rs) None = (Inr (length (scales h)), h\<lparr>arrays := arrays h @ [cumprod (concatenate f rs)], scales := scales h @ [length (arrays h)]\<rparr>)"
  by (simp add: Scale_init_def scale_from_rates_def new_array_def new_scale_def)

lemma notes_of_fresh:
  "notes_of (h\<lparr>arrays := arrays h @ [ns], scales := scales h @ [length (arrays h)]\<rparr>) (length (scales h)) = ns"
  by (simp add: notes_of_def notes_ref_def)

lemma notes_ref_fresh:
  "notes_ref (h\<lparr>arrays := arrays h @ [ns], scales := scales h @ [length (arrays h)]\<rparr>) (length (scales h)) = length (arrays h)"
  by (simp add: notes_ref_def)

lemma live_fresh:
  "live (h\<lparr>arrays := arrays h @ [ns], scales := scales h @ [length (arrays h)]\<rparr>) (length (scales h))"
  by (simp add: live_def notes_ref_def)

text \<open>
  C4. \<^verbatim>\<open>Scale(...)\<close> succeeds in exactly two ways. Without \<^verbatim>\<open>notes\<close>, both
  \<^verbatim>\<open>origin\<close> and \<^verbatim>\<open>rates\<close> must be given and the notes are the array the cumulative
  builder returns; if either is absent it raises \<^verbatim>\<open>ValueError\<close>. With \<^verbatim>\<open>notes\<close>, both
  \<^verbatim>\<open>origin\<close> and \<^verbatim>\<open>rates\<close> must be absent and the notes are the elements given; if
  either is present it raises \<^verbatim>\<open>ValueError\<close>. A constructor that raises returns no
  object and leaves the store as it was.
\<close>

theorem Scale_init_modes:
  "(\<exists>s h'. Scale_init h (Some f) (Some rs) None = (Inr s, h')
        \<and> live h' s
        \<and> notes_ref h' s = fst (scale_from_rates h f rs)
        \<and> arrays h' = arrays (snd (scale_from_rates h f rs))
        \<and> notes_of h' s = cumprod (concatenate f rs))
   \<and> Scale_init h None rates None = (Inl ValueError, h)
   \<and> Scale_init h origin None None = (Inl ValueError, h)
   \<and> (\<exists>s h'. Scale_init h None None (Some ns) = (Inr s, h')
        \<and> live h' s \<and> notes_of h' s = ns)
   \<and> (origin \<noteq> None \<or> rates \<noteq> None \<longrightarrow>
        Scale_init h origin rates (Some ns) = (Inl ValueError, h))"
proof -
  have a: "\<exists>s h'. Scale_init h (Some f) (Some rs) None = (Inr s, h')
        \<and> live h' s
        \<and> notes_ref h' s = fst (scale_from_rates h f rs)
        \<and> arrays h' = arrays (snd (scale_from_rates h f rs))
        \<and> notes_of h' s = cumprod (concatenate f rs)"
    by (simp add: Scale_init_rates_arg live_fresh notes_ref_fresh notes_of_fresh
          scale_from_rates_alloc)
  have b: "Scale_init h None rates None = (Inl ValueError, h)"
    by (simp add: Scale_init_def)
  have c: "Scale_init h origin None None = (Inl ValueError, h)"
    by (simp add: Scale_init_def)
  have d: "\<exists>s h'. Scale_init h None None (Some ns) = (Inr s, h')
        \<and> live h' s \<and> notes_of h' s = ns"
    by (simp add: Scale_init_notes_arg live_fresh notes_of_fresh)
  have e: "origin \<noteq> None \<or> rates \<noteq> None \<longrightarrow>
        Scale_init h origin rates (Some ns) = (Inl ValueError, h)"
    by (simp add: Scale_init_def)
  from a b c d e show ?thesis by blast
qed

theorem Scale_init_modes_witness:
  "Scale_init empty_heap (Some (PyInt 7)) None (Some (asarray [PyInt 100, PyInt 200]))
     = (Inl ValueError, empty_heap)"
proof -
  have "Some (PyInt 7) \<noteq> None \<or> (None :: ndarray option) \<noteq> None" by simp
  with Scale_init_modes [of empty_heap _ _ "None" "Some (PyInt 7)" "asarray [PyInt 100, PyInt 200]"]
  show ?thesis by blast
qed

section \<open>Round trips between cents, ratios and notes\<close>

lemma cumprod_from_quot:
  "(x::real) \<noteq> 0 \<Longrightarrow> \<forall>y\<in>set ys. y \<noteq> 0 \<Longrightarrow> cumprod_from x (map2 (\<lambda>a b. a / b) ys (butlast (x # ys))) = ys"
proof (induction ys arbitrary: x)
  case Nil
  then show ?case by simp
next
  case (Cons y ys)
  then show ?case by simp
qed

lemma quot_cumprod_from:
  "(f::real) \<noteq> 0 \<Longrightarrow> \<forall>r\<in>set rs. r \<noteq> 0 \<Longrightarrow> map2 (\<lambda>a b. a / b) (cumprod_from f rs) (butlast (f # cumprod_from f rs)) = rs"
proof (induction rs arbitrary: f)
  case Nil
  then show ?case by simp
next
  case (Cons r rs)
  then show ?case by simp
qed

lemma cents_of_rates: "map (\<lambda>r. 1200 * log 2 r) (map (\<lambda>c. 2 powr (c / 1200)) cs) = (cs :: real list)"
  by (induction cs) simp_all

text \<open>
  C2. For every ToneBasis \<open>B\<close> and every positive origin \<open>f\<close>, int or float,
  \<^verbatim>\<open>B.to_scale(f).intervals()\<close> returns the cents of \<open>B\<close>, element by element, in exact
  real arithmetic: the quotients of consecutive notes are the ratios of \<open>B\<close>, and
  \<open>log 2\<close> undoes \<open>2 powr\<close>.
\<close>

theorem to_scale_intervals_roundtrip:
  "0 < num_val f \<Longrightarrow>
     \<exists>s h'. to_scale h B (Some f) = (Inr s, h') \<and> Scale_intervals h' s = intervals B"
proof -
  assume f: "0 < num_val f"
  let ?rs = "ToneBasis_rates B"
  let ?ns = "cumprod (concatenate f (Float64 ?rs))"
  let ?h = "h\<lparr>arrays := arrays h @ [?ns], scales := scales h @ [length (arrays h)]\<rparr>"
  let ?s = "length (scales h)"
  have made: "to_scale h B (Some f) = (Inr ?s, ?h)"
    by (simp add: to_scale_def Scale_init_rates_arg)
  have "?ns = Float64 (cumprod_list (num_val f # vals (Float64 ?rs)))"
    by (rule builder_float) simp
  then have cont: "vals (notes_of ?h ?s) = num_val f # cumprod_from (num_val f) ?rs"
    by (simp add: notes_of_fresh cumprod_list_def)
  have pos: "\<forall>r\<in>set ?rs. r \<noteq> 0"
    by (simp add: ToneBasis_rates_def)
  from f have "num_val f \<noteq> 0" by simp
  then have quot: "map2 (\<lambda>a b. a / b) (cumprod_from (num_val f) ?rs)
                     (butlast (num_val f # cumprod_from (num_val f) ?rs)) = ?rs"
    using pos by (rule quot_cumprod_from)
  have "Scale_rates ?h ?s
          = map2 (\<lambda>a b. a / b) (cumprod_from (num_val f) ?rs)
              (butlast (num_val f # cumprod_from (num_val f) ?rs))"
    unfolding Scale_rates_def cont by simp
  with quot have "Scale_rates ?h ?s = ?rs"
    by (simp only:)
  then have "Scale_intervals ?h ?s = intervals B"
    unfolding Scale_intervals_def ToneBasis_rates_def by (simp only: cents_of_rates)
  with made show ?thesis by blast
qed

theorem to_scale_intervals_roundtrip_witness:
  "(\<exists>s h'. to_scale empty_heap (ToneBasis_init [200, -100]) (Some (PyFloat 440)) = (Inr s, h')
     \<and> Scale_intervals h' s = [200, -100])
   \<and> (\<exists>s h'. to_scale empty_heap (ToneBasis_init [200, -100]) (Some (PyInt 440)) = (Inr s, h')
     \<and> Scale_intervals h' s = [200, -100])"
proof -
  have "0 < num_val (PyFloat 440)" by simp
  from to_scale_intervals_roundtrip [OF this, of empty_heap "ToneBasis_init [200, -100]"]
  have a: "\<exists>s h'. to_scale empty_heap (ToneBasis_init [200, -100]) (Some (PyFloat 440)) = (Inr s, h')
     \<and> Scale_intervals h' s = [200, -100]"
    by (simp add: ToneBasis_init_def)
  have "0 < num_val (PyInt 440)" by simp
  from to_scale_intervals_roundtrip [OF this, of empty_heap "ToneBasis_init [200, -100]"]
  have b: "\<exists>s h'. to_scale empty_heap (ToneBasis_init [200, -100]) (Some (PyInt 440)) = (Inr s, h')
     \<and> Scale_intervals h' s = [200, -100]"
    by (simp add: ToneBasis_init_def)
  from a b show ?thesis by (rule conjI)
qed

text \<open>
  C10. For every non-empty sequence \<open>ns\<close> of positive numbers, of either dtype, and
  \<open>f\<close> its first element, \<^verbatim>\<open>scale_from_rates(ns[0], Scale(notes=ns).rates())\<close> holds
  the values of \<open>ns\<close> again: the quotients \<open>ns[i+1] / ns[i]\<close> telescope under the
  cumulative product.
\<close>

theorem rates_rebuild_notes:
  "vals ns \<noteq> [] \<Longrightarrow> \<forall>x\<in>set (vals ns). 0 < x \<Longrightarrow> num_val f = vals ns ! 0 \<Longrightarrow>
     \<exists>s h' a h''. Scale_init h None None (Some ns) = (Inr s, h')
       \<and> scale_from_rates h' f (Float64 (Scale_rates h' s)) = (a, h'')
       \<and> arrays h'' ! a = Float64 (vals ns)"
proof -
  assume ne: "vals ns \<noteq> []" and pos: "\<forall>x\<in>set (vals ns). 0 < x"
    and f: "num_val f = vals ns ! 0"
  from ne obtain x ys where ns: "vals ns = x # ys" by (cases "vals ns") auto
  let ?h = "h\<lparr>arrays := arrays h @ [ns], scales := scales h @ [length (arrays h)]\<rparr>"
  let ?s = "length (scales h)"
  let ?rs = "Scale_rates ?h ?s"
  from pos ns have x: "x \<noteq> 0" and ys: "\<forall>y\<in>set ys. y \<noteq> 0" by auto
  from f ns have fx: "num_val f = x" by simp
  have rs: "?rs = map2 (\<lambda>a b. a / b) ys (butlast (x # ys))"
    by (simp only: Scale_rates_def notes_of_fresh ns list.sel)
  have "cumprod (concatenate f (Float64 ?rs)) = Float64 (cumprod_list (num_val f # vals (Float64 ?rs)))"
    by (rule builder_float) simp
  also have "\<dots> = Float64 (x # cumprod_from x (map2 (\<lambda>a b. a / b) ys (butlast (x # ys))))"
    by (simp only: cumprod_list_def fx rs vals.simps list.case)
  also have "\<dots> = Float64 (vals ns)"
    by (simp only: cumprod_from_quot [OF x ys] ns)
  finally have built: "cumprod (concatenate f (Float64 ?rs)) = Float64 (vals ns)" .
  have "scale_from_rates ?h f (Float64 ?rs)
          = (length (arrays ?h), ?h\<lparr>arrays := arrays ?h @ [Float64 (vals ns)]\<rparr>)"
    by (simp only: scale_from_rates_alloc built)
  moreover have "arrays (?h\<lparr>arrays := arrays ?h @ [Float64 (vals ns)]\<rparr>) ! length (arrays ?h)
                   = Float64 (vals ns)"
    by (simp add: nth_append)
  ultimately show ?thesis
    unfolding Scale_init_notes_arg by blast
qed

theorem rates_rebuild_notes_witness:
  "(\<exists>s h' a h''. Scale_init empty_heap None None (Some (Float64 [100, 200, 300])) = (Inr s, h')
       \<and> scale_from_rates h' (PyFloat 100) (Float64 (Scale_rates h' s)) = (a, h'')
       \<and> arrays h'' ! a = Float64 [100, 200, 300])
   \<and> (\<exists>s h' a h''. Scale_init empty_heap None None (Some (Int64 [100, 200, 300])) = (Inr s, h')
       \<and> scale_from_rates h' (PyInt 100) (Float64 (Scale_rates h' s)) = (a, h'')
       \<and> arrays h'' ! a = Float64 [100, 200, 300])"
proof -
  have "vals (Float64 [100, 200, 300]) \<noteq> []" by simp
  moreover have "\<forall>x\<in>set (vals (Float64 [100, 200, 300])). 0 < x" by simp
  moreover have "num_val (PyFloat 100) = vals (Float64 [100, 200, 300]) ! 0" by simp
  ultimately have a: "\<exists>s h' a h''. Scale_init empty_heap None None (Some (Float64 [100, 200, 300])) = (Inr s, h')
       \<and> scale_from_rates h' (PyFloat 100) (Float64 (Scale_rates h' s)) = (a, h'')
       \<and> arrays h'' ! a = Float64 [100, 200, 300]"
    using rates_rebuild_notes [of "Float64 [100, 200, 300]" "PyFloat 100" empty_heap] by simp
  have "vals (Int64 [100, 200, 300]) \<noteq> []" by simp
  moreover have "\<forall>x\<in>set (vals (Int64 [100, 200, 300])). 0 < x" by simp
  moreover have "num_val (PyInt 100) = vals (Int64 [100, 200, 300]) ! 0" by simp
  ultimately have b: "\<exists>s h' a h''. Scale_init empty_heap None None (Some (Int64 [100, 200, 300])) = (Inr s, h')
       \<and> scale_from_rates h' (PyInt 100) (Float64 (Scale_rates h' s)) = (a, h'')
       \<and> arrays h'' ! a = Float64 [100, 200, 300]"
    using rates_rebuild_notes [of "Int64 [100, 200, 300]" "PyInt 100" empty_heap] by simp
  from a b show ?thesis by (rule conjI)
qed

section \<open>Editing a note\<close>



lemma norm_index_last: "0 < n \<Longrightarrow> norm_index n (0 - 1) = Inr (n - 1)"
  by (auto simp add: norm_index_def nat_diff_distrib')

lemma norm_index_zero: "0 < n \<Longrightarrow> norm_index n 0 = Inr 0"
  by (simp add: norm_index_def)

lemma py_pow2_fits: "c < 1228800 \<Longrightarrow> py_pow2 (c / 1200) = Inr (2 powr (c / 1200))"
  by (simp add: py_pow2_def)

lemma py_pow2_overflow: "1228800 \<le> c \<Longrightarrow> py_pow2 (c / 1200) = Inl OverflowError"
  by (simp add: py_pow2_def)

lemma getitem_at:
  "norm_index (alen (notes_of h s)) i = Inr k \<Longrightarrow>
     getitem h (notes_ref h s) i = Inr (vals (notes_of h s) ! k)"
  by (simp add: getitem_def notes_of_def)

lemma setitem_at:
  "norm_index (alen (notes_of h s)) i = Inr k \<Longrightarrow>
     setitem h (notes_ref h s) i v = Inr (with_note h s k v)"
  by (simp add: setitem_def notes_of_def with_note_def)










lemma set_note_previous_first:
  assumes "0 < alen (notes_of h s)" and "c < 1228800"
  shows "set_note h s 0 c ''previous''
           = (Inr s, with_note h s 0 (last (vals (notes_of h s)) * 2 powr (c / 1200)))"
proof -
  from assms(1) have ne: "vals (notes_of h s) \<noteq> []"
    by (simp add: alen_def)
  from assms(1) have "norm_index (alen (notes_of h s)) (0 - 1) = Inr (alen (notes_of h s) - 1)"
    by (rule norm_index_last)
  then have "getitem h (notes_ref h s) (0 - 1)
               = Inr (vals (notes_of h s) ! (alen (notes_of h s) - 1))"
    by (rule getitem_at)
  with ne have g: "getitem h (notes_ref h s) (0 - 1) = Inr (last (vals (notes_of h s)))"
    by (simp add: last_conv_nth alen_def)
  from assms(1) have "norm_index (alen (notes_of h s)) 0 = Inr 0"
    by (rule norm_index_zero)
  then have "setitem h (notes_ref h s) 0 v = Inr (with_note h s 0 v)" for v
    by (rule setitem_at)
  with g show ?thesis
    by (simp add: set_note_def py_pow2_fits [OF assms(2)])
qed

lemma set_note_overflow:
  "1228800 \<le> c \<Longrightarrow> set_note h s i c r = (Inl OverflowError, h)"
  by (simp add: set_note_def py_pow2_overflow)

lemma setitem_frame:
  "setitem h a i v = Inr h' \<Longrightarrow>
     scales h' = scales h \<and> (\<forall>b. b \<noteq> a \<longrightarrow> arrays h' ! b = arrays h ! b)"
  by (auto simp add: setitem_def split: sum.splits)

lemma set_note_frame:
  assumes "notes_ref h s' \<noteq> notes_ref h s"
  shows "notes_of (snd (set_note h s i c r)) s' = notes_of h s'"
proof -
  have step: "notes_of (snd (case setitem h (notes_ref h s) i v of
                 Inl e \<Rightarrow> (Inl e, h) | Inr h' \<Rightarrow> (Inr s, h'))) s' = notes_of h s'" for v
  proof (cases "setitem h (notes_ref h s) i v")
    case (Inl e)
    then show ?thesis by simp
  next
    case (Inr h')
    from setitem_frame [OF this]
    have sc: "scales h' = scales h"
      and ar: "\<forall>b. b \<noteq> notes_ref h s \<longrightarrow> arrays h' ! b = arrays h ! b"
      by simp_all
    from assms ar have "arrays h' ! notes_ref h s' = arrays h ! notes_ref h s'"
      by simp
    then have "notes_of h' s' = notes_of h s'"
      by (simp add: notes_of_def notes_ref_def sc)
    then show ?thesis by (simp add: Inr)
  qed
  show ?thesis
    unfolding set_note_def
    by (simp add: step split: sum.split)
qed

lemma twelfth_root_lower:
  assumes "a ^ 12 \<le> 2" and "0 \<le> a"
  shows "(a::real) \<le> 2 powr (100 / 1200)"
proof (rule ccontr)
  assume "\<not> a \<le> 2 powr (100 / 1200)"
  then have "2 powr (100 / 1200) < a" by simp
  moreover have "(0::real) \<le> 2 powr (100 / 1200)" by simp
  ultimately have "(2 powr (100 / 1200)) ^ 12 < a ^ 12"
    by (intro power_strict_mono) simp_all
  moreover have "(2 powr (100 / 1200)) ^ 12 = (2::real)"
    using octave_root_power [of 12] by simp
  ultimately show False using assms(1) by simp
qed

lemma twelfth_root_upper:
  assumes "2 < b ^ 12" and "0 \<le> b"
  shows "2 powr (100 / 1200) < (b::real)"
proof (rule ccontr)
  assume "\<not> 2 powr (100 / 1200) < b"
  then have "b \<le> 2 powr (100 / 1200)" by simp
  with assms(2) have "b ^ 12 \<le> (2 powr (100 / 1200)) ^ 12"
    by (intro power_mono) simp_all
  moreover have "(2 powr (100 / 1200)) ^ 12 = (2::real)"
    using octave_root_power [of 12] by simp
  ultimately show False using assms(1) by simp
qed


lemma semitone_above_440: "to_int64 (440 * 2 powr (100 / 1200)) = 466"
proof -
  have "(466 / 440 :: real) ^ 12 \<le> 2" by (simp add: power_divide)
  then have lo: "466 / 440 \<le> (2::real) powr (100 / 1200)"
    by (rule twelfth_root_lower) simp
  have "2 < (467 / 440 :: real) ^ 12" by (simp add: power_divide)
  then have hi: "(2::real) powr (100 / 1200) < 467 / 440"
    by (rule twelfth_root_upper) simp
  from lo hi have "\<lfloor>440 * (2::real) powr (100 / 1200)\<rfloor> = 466"
    by (simp add: floor_eq_iff)
  moreover from lo have "0 \<le> 440 * (2::real) powr (100 / 1200)" by simp
  ultimately show ?thesis
    by (simp add: to_int64_def trunc_def in_int64_def)
qed




text \<open>
  C9, as the claim has it: with a reference string other than \<^verbatim>\<open>'current'\<close>,
  \<^verbatim>\<open>'previous'\<close> and \<^verbatim>\<open>'origin'\<close> the call is a no-op that still returns the Scale,
  for every cents. With \<open>c = 1228800\<close> it does not return: \<^verbatim>\<open>2 ** (cents/1200)\<close> is
  computed before the reference is looked at, and raises \<^verbatim>\<open>OverflowError\<close>.
\<close>

theorem set_note_unrecognized_counterexample:
  "set_note \<lparr>arrays = [Float64 [100, 200, 400]], scales = [0]\<rparr> 0 1 1228800 ''next''
     = (Inl OverflowError, \<lparr>arrays = [Float64 [100, 200, 400]], scales = [0]\<rparr>)
   \<and> fst (set_note \<lparr>arrays = [Float64 [100, 200, 400]], scales = [0]\<rparr> 0 1 1228800 ''next'')
       \<noteq> Inr 0"
  by (simp add: set_note_overflow)

text \<open>
  C9, as the code has it. With a reference string other than \<^verbatim>\<open>'current'\<close>,
  \<^verbatim>\<open>'previous'\<close> and \<^verbatim>\<open>'origin'\<close>, \<^verbatim>\<open>set_note\<close> changes nothing in the store, whatever
  the index and the cents; it returns the Scale it was called on when
  \<open>cents < 1228800\<close>, and raises \<^verbatim>\<open>OverflowError\<close> otherwise.
\<close>

theorem set_note_unrecognized:
  "reference \<notin> {''current'', ''previous'', ''origin''} \<Longrightarrow>
     (cents < 1228800 \<longrightarrow> set_note h self index cents reference = (Inr self, h))
   \<and> (1228800 \<le> cents \<longrightarrow> set_note h self index cents reference = (Inl OverflowError, h))"
  by (simp add: set_note_def py_pow2_def)

theorem set_note_unrecognized_witness:
  "set_note \<lparr>arrays = [Int64 [100, 200, 400]], scales = [0]\<rparr> 0 1 50 ''next''
     = (Inr 0, \<lparr>arrays = [Int64 [100, 200, 400]], scales = [0]\<rparr>)
   \<and> set_note \<lparr>arrays = [Int64 [100, 200, 400]], scales = [0]\<rparr> 0 1 1228800 ''next''
     = (Inl OverflowError, \<lparr>arrays = [Int64 [100, 200, 400]], scales = [0]\<rparr>)"
proof -
  have r: "''next'' \<notin> {''current'', ''previous'', ''origin''}" by simp
  have "(50::real) < 1228800" and "(1228800::real) \<le> 1228800" by simp_all
  with set_note_unrecognized [OF r, of 50] set_note_unrecognized [OF r, of 1228800]
  show ?thesis by blast
qed

text \<open>
  C1. The claim is that \<^verbatim>\<open>set_note(0, cents, 'previous')\<close> fails with an out-of-range
  error and leaves the notes as they were, as
  \<^verbatim>\<open>Scale(notes=[440]).set_note(0, 100, 'previous')\<close> should. The docstring places the
  note \<^verbatim>\<open>cents\<close> above its predecessor on the scale, and the first note has none; the
  code reads \<^verbatim>\<open>self.notes[index-1]\<close> all the same, and numpy takes index \<open>-1\<close> to be
  the last note. On \<^verbatim>\<open>Scale(notes=[440])\<close>, whose notes are the \<^verbatim>\<open>int64\<close> array that
  \<^verbatim>\<open>np.array([440])\<close> is, the call raises nothing
  and leaves the note 466; on the float array 440.0 it leaves \<open>440 * 2 powr (100 / 1200)\<close>;
  on the notes 100, 200, 400 with 0 cents it leaves 400, 200, 400.
\<close>

theorem set_note_previous_first_wraps:
  "asarray [PyInt 440] = Int64 [440]
   \<and> set_note \<lparr>arrays = [Int64 [440]], scales = [0]\<rparr> 0 0 100 ''previous''
       = (Inr 0, \<lparr>arrays = [Int64 [466]], scales = [0]\<rparr>)
   \<and> set_note \<lparr>arrays = [Float64 [440]], scales = [0]\<rparr> 0 0 100 ''previous''
       = (Inr 0, \<lparr>arrays = [Float64 [440 * 2 powr (100 / 1200)]], scales = [0]\<rparr>)
   \<and> set_note \<lparr>arrays = [Int64 [100, 200, 400]], scales = [0]\<rparr> 0 0 0 ''previous''
       = (Inr 0, \<lparr>arrays = [Int64 [400, 200, 400]], scales = [0]\<rparr>)"
proof -
  let ?h = "\<lparr>arrays = [Int64 [440]], scales = [0]\<rparr>"
  let ?g = "\<lparr>arrays = [Float64 [440]], scales = [0]\<rparr>"
  let ?k = "\<lparr>arrays = [Int64 [100, 200, 400]], scales = [0]\<rparr>"
  have mk: "asarray [PyInt 440] = Int64 [440]"
    by (simp add: asarray_def)
  have n: "notes_of ?h 0 = Int64 [440]" and ng: "notes_of ?g 0 = Float64 [440]"
    and nk: "notes_of ?k 0 = Int64 [100, 200, 400]"
    by (simp_all add: notes_of_def notes_ref_def)
  have c: "(100::real) < 1228800" and c0: "(0::real) < 1228800" by simp_all
  have "0 < alen (notes_of ?h 0)" by (simp add: n alen_def)
  then have "set_note ?h 0 0 100 ''previous''
       = (Inr 0, with_note ?h 0 0 (last (vals (notes_of ?h 0)) * 2 powr (100 / 1200)))"
    using c by (rule set_note_previous_first)
  moreover have "to_int64 (440 * 2 powr (1 / 12)) = 466"
    using semitone_above_440 by simp
  ultimately have a: "set_note ?h 0 0 100 ''previous''
       = (Inr 0, \<lparr>arrays = [Int64 [466]], scales = [0]\<rparr>)"
    by (simp add: with_note_def n notes_ref_def)
  have "0 < alen (notes_of ?g 0)" by (simp add: ng alen_def)
  then have "set_note ?g 0 0 100 ''previous''
       = (Inr 0, with_note ?g 0 0 (last (vals (notes_of ?g 0)) * 2 powr (100 / 1200)))"
    using c by (rule set_note_previous_first)
  then have b: "set_note ?g 0 0 100 ''previous''
       = (Inr 0, \<lparr>arrays = [Float64 [440 * 2 powr (100 / 1200)]], scales = [0]\<rparr>)"
    by (simp add: with_note_def ng notes_ref_def)
  have "0 < alen (notes_of ?k 0)" by (simp add: nk alen_def)
  then have "set_note ?k 0 0 0 ''previous''
       = (Inr 0, with_note ?k 0 0 (last (vals (notes_of ?k 0)) * 2 powr (0 / 1200)))"
    using c0 by (rule set_note_previous_first)
  then have d: "set_note ?k 0 0 0 ''previous''
       = (Inr 0, \<lparr>arrays = [Int64 [400, 200, 400]], scales = [0]\<rparr>)"
    by (simp add: with_note_def nk notes_ref_def to_int64_def trunc_def in_int64_def)
  from mk a b d show ?thesis by blast
qed

section \<open>Copying a Scale\<close>

text \<open>
  C8. \<^verbatim>\<open>s1.copy()\<close> returns a new Scale \<open>s2\<close> whose notes are element-wise those of
  \<open>s1\<close>, of the same dtype, but live in an array of their own: the two objects and the
  two array addresses differ, so whatever \<^verbatim>\<open>set_note\<close> call is made on the copy, the
  notes of \<open>s1\<close> stay as they were, and the other way round.
\<close>

theorem copy_is_independent:
  "live h s1 \<Longrightarrow>
     \<exists>s2 h1. Scale_copy h s1 = (Inr s2, h1)
        \<and> s2 \<noteq> s1 \<and> live h1 s1 \<and> live h1 s2
        \<and> notes_ref h1 s2 \<noteq> notes_ref h1 s1
        \<and> notes_of h1 s2 = notes_of h s1 \<and> notes_of h1 s1 = notes_of h s1
        \<and> (\<forall>i c r. notes_of (snd (set_note h1 s2 i c r)) s1 = notes_of h s1)
        \<and> (\<forall>i c r. notes_of (snd (set_note h1 s1 i c r)) s2 = notes_of h s1)"
proof -
  assume l: "live h s1"
  let ?s2 = "length (scales h)"
  let ?h1 = "h\<lparr>arrays := arrays h @ [notes_of h s1], scales := scales h @ [length (arrays h)]\<rparr>"
  have made: "Scale_copy h s1 = (Inr ?s2, ?h1)"
    by (simp add: Scale_copy_def Scale_init_notes_arg)
  from l have ne: "?s2 \<noteq> s1" by (simp add: live_def)
  from l have r1: "notes_ref ?h1 s1 = notes_ref h s1"
    by (simp add: notes_ref_def live_def nth_append)
  have r2: "notes_ref ?h1 ?s2 = length (arrays h)"
    by (simp add: notes_ref_def)
  from l r1 r2 have apart: "notes_ref ?h1 ?s2 \<noteq> notes_ref ?h1 s1"
    by (simp add: live_def)
  from l have n1: "notes_of ?h1 s1 = notes_of h s1"
    by (simp add: notes_of_def notes_ref_def live_def nth_append)
  have n2: "notes_of ?h1 ?s2 = notes_of h s1"
    by (simp add: notes_of_def notes_ref_def)
  from l have l1: "live ?h1 s1"
    by (simp add: live_def notes_ref_def nth_append)
  have l2: "live ?h1 ?s2"
    by (simp add: live_def notes_ref_def)
  have f1: "notes_of (snd (set_note ?h1 ?s2 i c r)) s1 = notes_of h s1" for i c r
    using set_note_frame [of ?h1 s1 ?s2 i c r] apart n1 by simp
  have f2: "notes_of (snd (set_note ?h1 s1 i c r)) ?s2 = notes_of h s1" for i c r
    using set_note_frame [of ?h1 ?s2 s1 i c r] apart n2 by simp
  from made ne l1 l2 apart n1 n2 f1 f2 show ?thesis by blast
qed

theorem copy_is_independent_witness:
  "Scale_copy \<lparr>arrays = [Int64 [100, 200, 400]], scales = [0]\<rparr> 0
     = (Inr 1, \<lparr>arrays = [Int64 [100, 200, 400], Int64 [100, 200, 400]], scales = [0, 1]\<rparr>)
   \<and> notes_of (snd (set_note \<lparr>arrays = [Int64 [100, 200, 400], Int64 [100, 200, 400]], scales = [0, 1]\<rparr>
                         1 1 100 ''current'')) 0 = Int64 [100, 200, 400]
   \<and> notes_of (snd (set_note \<lparr>arrays = [Int64 [100, 200, 400], Int64 [100, 200, 400]], scales = [0, 1]\<rparr>
                         0 1 100 ''current'')) 1 = Int64 [100, 200, 400]"
proof -
  let ?h = "\<lparr>arrays = [Int64 [100, 200, 400]], scales = [0]\<rparr>"
  let ?h1 = "\<lparr>arrays = [Int64 [100, 200, 400], Int64 [100, 200, 400]], scales = [0, 1]\<rparr>"
  have l: "live ?h 0"
    by (simp add: live_def notes_ref_def)
  have n: "notes_of ?h 0 = Int64 [100, 200, 400]"
    by (simp add: notes_of_def notes_ref_def)
  have made: "Scale_copy ?h 0 = (Inr 1, ?h1)"
    by (simp add: Scale_copy_def Scale_init_notes_arg n)
  from copy_is_independent [OF l] obtain s2 h1 where
    c: "Scale_copy ?h 0 = (Inr s2, h1)"
    and f1: "\<forall>i c r. notes_of (snd (set_note h1 s2 i c r)) 0 = notes_of ?h 0"
    and f2: "\<forall>i c r. notes_of (snd (set_note h1 0 i c r)) s2 = notes_of ?h 0"
    by blast
  from c made have "s2 = 1" and "h1 = ?h1" by auto
  with f1 f2 n made show ?thesis by simp
qed

end
